theory Spec2Isabelle
  imports Complex_Main "HOL-Library.Multiset"
begin

section \<open>Numeric arrays\<close>

text \<open>
  The script works on two-dimensional numpy arrays (\<^verbatim>\<open>np.array([[0], [1]])\<close>,
  \<^verbatim>\<open>np.random.randn(y, 1)\<close>, ...). Such an array is modelled by its shape and its
  entries; an entry is read only at positions inside the shape. Floating-point numbers are
  idealised as real numbers throughout: rounding, overflow and NaN are not part of the
  model.
\<close>

record ndarray =
  nrows :: nat
  ncols :: nat
  entry :: "nat \<Rightarrow> nat \<Rightarrow> real"

definition shape :: "ndarray \<Rightarrow> nat \<times> nat" where
  "shape a = (nrows a, ncols a)"

text \<open>\<^verbatim>\<open>np.array(rows)\<close> for a non-empty literal list of rows of equal length.\<close>

definition np_array :: "real list list \<Rightarrow> ndarray" where
  "np_array rows =
     \<lparr>nrows = length rows, ncols = length (hd rows), entry = (\<lambda>i j. rows ! i ! j)\<rparr>"

definition np_zeros :: "nat \<times> nat \<Rightarrow> ndarray" where
  "np_zeros s = \<lparr>nrows = fst s, ncols = snd s, entry = (\<lambda>i j. 0)\<rparr>"

datatype error = ValueError | ZeroDivisionError

text \<open>
  Element-wise binary operations follow numpy's broadcasting rule: along each axis the two
  lengths must agree or one of them must be 1, and an axis of length 1 is repeated.
\<close>

definition broadcastable :: "nat \<Rightarrow> nat \<Rightarrow> bool" where
  "broadcastable m n \<longleftrightarrow> m = n \<or> m = 1 \<or> n = 1"

definition bdim :: "nat \<Rightarrow> nat \<Rightarrow> nat" where
  "bdim m n = (if m = 1 then n else m)"

definition bidx :: "nat \<Rightarrow> nat \<Rightarrow> nat" where
  "bidx m i = (if m = 1 then 0 else i)"

definition np_binop :: "(real \<Rightarrow> real \<Rightarrow> real) \<Rightarrow> ndarray \<Rightarrow> ndarray \<Rightarrow> error + ndarray" where
  "np_binop f a b =
     (if broadcastable (nrows a) (nrows b) \<and> broadcastable (ncols a) (ncols b)
      then Inr \<lparr>nrows = bdim (nrows a) (nrows b), ncols = bdim (ncols a) (ncols b),
                entry = (\<lambda>i j. f (entry a (bidx (nrows a) i) (bidx (ncols a) j))
                               (entry b (bidx (nrows b) i) (bidx (ncols b) j)))\<rparr>
      else Inl ValueError)"

definition np_add :: "ndarray \<Rightarrow> ndarray \<Rightarrow> error + ndarray" where
  "np_add = np_binop (+)"

definition np_sub :: "ndarray \<Rightarrow> ndarray \<Rightarrow> error + ndarray" where
  "np_sub = np_binop (-)"

text \<open>A scalar function applied to every entry (\<^verbatim>\<open>np.exp\<close>, \<^verbatim>\<open>** 2\<close>, scaling).\<close>

definition np_map :: "(real \<Rightarrow> real) \<Rightarrow> ndarray \<Rightarrow> ndarray" where
  "np_map f a = \<lparr>nrows = nrows a, ncols = ncols a, entry = (\<lambda>i j. f (entry a i j))\<rparr>"

text \<open>\<^verbatim>\<open>np.dot(w, a)\<close> on two-dimensional arrays: the matrix product.\<close>

definition np_dot :: "ndarray \<Rightarrow> ndarray \<Rightarrow> error + ndarray" where
  "np_dot w a =
     (if ncols w = nrows a
      then Inr \<lparr>nrows = nrows w, ncols = ncols a,
                entry = (\<lambda>i j. sum_list (map (\<lambda>k. entry w i k * entry a k j) [0..<ncols w]))\<rparr>
      else Inl ValueError)"

section \<open>Activation functions\<close>

definition sigmoid :: "real \<Rightarrow> real" where
  "sigmoid x = 1 / (1 + exp (- x))"


section \<open>Cost derivative\<close>

definition cost_derivative :: "ndarray \<Rightarrow> ndarray \<Rightarrow> error + ndarray" where
  "cost_derivative output_activations y = np_sub output_activations y"

section \<open>Parameter initialization\<close>

text \<open>
  The process-wide generator of normal samples is an explicit argument: the sequence of
  samples still to be drawn. \<^verbatim>\<open>np.random.randn(d0, d1)\<close> fills a \<open>d0 \<times> d1\<close> array
  from the front of the sequence and leaves the rest; a negative dimension raises
  \<^verbatim>\<open>ValueError\<close>.
\<close>

type_synonym normal_rng = "nat \<Rightarrow> real"

definition randn :: "normal_rng \<Rightarrow> int \<Rightarrow> int \<Rightarrow> error + (ndarray \<times> normal_rng)" where
  "randn g d0 d1 =
     (if d0 < 0 \<or> d1 < 0 then Inl ValueError
      else Inr (\<lparr>nrows = nat d0, ncols = nat d1, entry = (\<lambda>i j. g (i * nat d1 + j))\<rparr>,
                \<lambda>k. g (k + nat d0 * nat d1)))"

text \<open>
  \<^verbatim>\<open>np.random.randn(n_out, n_in) * np.sqrt(1.0 / n_in)\<close>: the sample array is drawn
  first, then \<^verbatim>\<open>1.0 / n_in\<close> raises \<^verbatim>\<open>ZeroDivisionError\<close> when \<open>n_in\<close> is 0.
\<close>

definition initialize_weights_xavier ::
    "normal_rng \<Rightarrow> int \<Rightarrow> int \<Rightarrow> error + (ndarray \<times> normal_rng)" where
  "initialize_weights_xavier g n_in n_out =
     (case randn g n_out n_in of
        Inl e \<Rightarrow> Inl e
      | Inr (m, g') \<Rightarrow>
          if n_in = 0 then Inl ZeroDivisionError
          else Inr (np_map (\<lambda>v. v * sqrt (1 / real_of_int n_in)) m, g'))"

section \<open>The network\<close>

record network =
  weights :: "ndarray list"
  biases :: "ndarray list"
  velocity_b :: "ndarray list"
  velocity_w :: "ndarray list"

text \<open>The two list comprehensions of the constructor, drawing from the generator in order.\<close>

fun init_weights :: "normal_rng \<Rightarrow> (int \<times> int) list \<Rightarrow> error + (ndarray list \<times> normal_rng)" where
  "init_weights g [] = Inr ([], g)"
| "init_weights g ((x, y) # rest) =
     (case initialize_weights_xavier g x y of
        Inl e \<Rightarrow> Inl e
      | Inr (w, g1) \<Rightarrow>
          (case init_weights g1 rest of
             Inl e \<Rightarrow> Inl e
           | Inr (ws, g2) \<Rightarrow> Inr (w # ws, g2)))"

fun init_biases :: "normal_rng \<Rightarrow> int list \<Rightarrow> error + (ndarray list \<times> normal_rng)" where
  "init_biases g [] = Inr ([], g)"
| "init_biases g (y # rest) =
     (case randn g y 1 of
        Inl e \<Rightarrow> Inl e
      | Inr (b, g1) \<Rightarrow>
          (case init_biases g1 rest of
             Inl e \<Rightarrow> Inl e
           | Inr (bs, g2) \<Rightarrow> Inr (b # bs, g2)))"

text \<open>
  \<^verbatim>\<open>NeuralNetwork.__init__\<close>: \<^verbatim>\<open>layer_sizes[:-1]\<close> is \<open>butlast\<close>, \<^verbatim>\<open>layer_sizes[1:]\<close> is
  \<open>tl\<close> (both are empty on the empty list, as in Python).
\<close>

definition NeuralNetwork_init :: "normal_rng \<Rightarrow> int list \<Rightarrow> error + (network \<times> normal_rng)" where
  "NeuralNetwork_init g layer_sizes =
     (case init_weights g (zip (butlast layer_sizes) (tl layer_sizes)) of
        Inl e \<Rightarrow> Inl e
      | Inr (ws, g1) \<Rightarrow>
          (case init_biases g1 (tl layer_sizes) of
             Inl e \<Rightarrow> Inl e
           | Inr (bs, g2) \<Rightarrow>
               Inr (\<lparr>weights = ws, biases = bs,
                     velocity_b = map (\<lambda>b. np_zeros (shape b)) bs,
                     velocity_w = map (\<lambda>w. np_zeros (shape w)) ws\<rparr>, g2)))"

section \<open>Forward pass\<close>

text \<open>
  The loop of \<^verbatim>\<open>feedforward\<close> over \<^verbatim>\<open>zip(self.biases, self.weights)\<close>, with the list
  \<^verbatim>\<open>activations\<close> as its state. A shape mismatch in \<^verbatim>\<open>np.dot\<close> or in the addition
  ends the loop with the error.
\<close>

fun feedforward_loop :: "(ndarray \<times> ndarray) list \<Rightarrow> ndarray list \<Rightarrow> error + ndarray list" where
  "feedforward_loop [] activations = Inr activations"
| "feedforward_loop ((b, w) # rest) activations =
     (case np_dot w (last activations) of
        Inl e \<Rightarrow> Inl e
      | Inr d \<Rightarrow>
          (case np_add d b of
             Inl e \<Rightarrow> Inl e
           | Inr z \<Rightarrow> feedforward_loop rest (activations @ [np_map sigmoid z])))"

text \<open>Methods take the object and return it next to their result.\<close>

definition feedforward :: "network \<Rightarrow> ndarray \<Rightarrow> (error + ndarray) \<times> network" where
  "feedforward self a =
     (case feedforward_loop (zip (biases self) (weights self)) [a] of
        Inl e \<Rightarrow> (Inl e, self)
      | Inr activations \<Rightarrow> (Inr (last activations), self))"

section \<open>The two empty methods\<close>

text \<open>Both bodies hold a docstring and a comment only: they return \<^verbatim>\<open>None\<close>.\<close>

definition backpropagation :: "network \<Rightarrow> ndarray \<Rightarrow> ndarray \<Rightarrow> unit \<times> network" where
  "backpropagation self x y = ((), self)"

definition gradient_descent ::
    "network \<Rightarrow> (ndarray \<times> ndarray) list \<Rightarrow> real \<Rightarrow> real \<Rightarrow> unit \<times> network" where
  "gradient_descent self mini_batch eta mu = ((), self)"

section \<open>Training driver\<close>

type_synonym example = "ndarray \<times> ndarray"

text \<open>
  \<^verbatim>\<open>np.random.shuffle\<close> reorders the list it is given in place by a Fisher-Yates pass:
  for \<open>i\<close> from the last position down to 1 it swaps position \<open>i\<close> with a random position
  \<open>j \<le> i\<close>. The generator is again explicit: a sequence of draws, each reduced to the
  range \<open>0..i\<close>.
\<close>

type_synonym index_rng = "nat \<Rightarrow> nat"

fun fisher_yates :: "nat \<Rightarrow> index_rng \<Rightarrow> 'a list \<Rightarrow> 'a list" where
  "fisher_yates 0 g xs = xs"
| "fisher_yates (Suc i) g xs =
     (let j = g 0 mod (Suc (Suc i))
      in fisher_yates i (\<lambda>k. g (Suc k)) (xs[Suc i := xs ! j, j := xs ! Suc i]))"

definition np_random_shuffle :: "index_rng \<Rightarrow> 'a list \<Rightarrow> 'a list \<times> index_rng" where
  "np_random_shuffle g xs =
     (fisher_yates (length xs - 1) g xs, \<lambda>k. g (k + (length xs - 1)))"

text \<open>
  \<^verbatim>\<open>range(0, n, step)\<close>: a zero step raises \<^verbatim>\<open>ValueError\<close>, a negative step gives the
  empty range (the stop \<open>n\<close> is a length, so it is not below 0).
\<close>

definition py_range :: "nat \<Rightarrow> int \<Rightarrow> error + nat list" where
  "py_range n step =
     (if step = 0 then Inl ValueError
      else if step < 0 then Inr []
      else Inr (map (\<lambda>i. i * nat step) [0..<(n + nat step - 1) div nat step]))"

text \<open>
  The slice \<^verbatim>\<open>xs[lo:hi]\<close>: a negative bound counts from the end, and both bounds are
  clipped to the list.
\<close>

definition clip_index :: "nat \<Rightarrow> int \<Rightarrow> nat" where
  "clip_index n i = (if i < 0 then nat (int n + i) else min n (nat i))"

definition py_slice :: "'a list \<Rightarrow> int \<Rightarrow> int \<Rightarrow> 'a list" where
  "py_slice xs lo hi =
     (let a = clip_index (length xs) lo; b = clip_index (length xs) hi
      in take (b - a) (drop a xs))"

definition mini_batches :: "'a list \<Rightarrow> nat \<Rightarrow> int \<Rightarrow> error + 'a list list" where
  "mini_batches training_data n mini_batch_size =
     (case py_range n mini_batch_size of
        Inl e \<Rightarrow> Inl e
      | Inr ks \<Rightarrow>
          Inr (map (\<lambda>k. py_slice training_data (int k) (int k + mini_batch_size)) ks))"

text \<open>The inner loop: one call of \<^verbatim>\<open>gradient_descent\<close> per mini-batch, its result dropped.\<close>

fun run_mini_batches :: "network \<Rightarrow> example list list \<Rightarrow> real \<Rightarrow> network" where
  "run_mini_batches self [] learning_rate = self"
| "run_mini_batches self (mini_batch # rest) learning_rate =
     run_mini_batches (snd (gradient_descent self mini_batch learning_rate 0.9)) rest learning_rate"

text \<open>
  The list \<^verbatim>\<open>losses\<close>: for each example the squared cost derivative of the network's
  output; the first failing example ends the comprehension.
\<close>

fun compute_losses :: "network \<Rightarrow> example list \<Rightarrow> (error + ndarray list) \<times> network" where
  "compute_losses self [] = (Inr [], self)"
| "compute_losses self ((x, y) # rest) =
     (case feedforward self x of
        (Inl e, self1) \<Rightarrow> (Inl e, self1)
      | (Inr out, self1) \<Rightarrow>
          (case cost_derivative out y of
             Inl e \<Rightarrow> (Inl e, self1)
           | Inr d \<Rightarrow>
               (case compute_losses self1 rest of
                  (Inl e, self2) \<Rightarrow> (Inl e, self2)
                | (Inr ls, self2) \<Rightarrow> (Inr (np_map (\<lambda>v. v ^ 2) d # ls), self2))))"

text \<open>
  \<^verbatim>\<open>np.mean\<close> of a list of arrays: the arrays are stacked, which raises
  \<^verbatim>\<open>ValueError\<close> when their shapes differ, and the mean of all entries is taken. The
  mean of no entries at all is \<^verbatim>\<open>nan\<close>, written \<open>None\<close>.
\<close>

definition total :: "ndarray \<Rightarrow> real" where
  "total a = sum_list (map (\<lambda>i. sum_list (map (\<lambda>j. entry a i j) [0..<ncols a])) [0..<nrows a])"

definition np_mean :: "ndarray list \<Rightarrow> error + real option" where
  "np_mean xs =
     (case xs of
        [] \<Rightarrow> Inr None
      | a # rest \<Rightarrow>
          if list_all (\<lambda>b. shape b = shape a) rest
          then (if nrows a * ncols a = 0 then Inr None
                else Inr (Some (sum_list (map total xs) / real (length xs * (nrows a * ncols a)))))
          else Inl ValueError)"

text \<open>
  The state of \<^verbatim>\<open>train\<close>: the object, the caller's list (shuffled in place), the local
  \<^verbatim>\<open>learning_rate\<close>, the generator, and the lines printed so far (epoch and loss).
\<close>

record train_state =
  self :: network
  training_data :: "example list"
  learning_rate :: real
  rng :: index_rng
  printed :: "(nat \<times> real option) list"

text \<open>The body of the epoch loop; \<open>n\<close> is the length taken before the loop.\<close>

definition train_epoch :: "nat \<Rightarrow> int \<Rightarrow> real \<Rightarrow> nat \<Rightarrow> train_state \<Rightarrow> error option \<times> train_state" where
  "train_epoch n mini_batch_size decay j st =
     (let (shuffled, g) = np_random_shuffle (rng st) (training_data st);
          st1 = st\<lparr>training_data := shuffled, rng := g\<rparr>
      in case mini_batches (training_data st1) n mini_batch_size of
           Inl e \<Rightarrow> (Some e, st1)
         | Inr batches \<Rightarrow>
             (let st2 = st1\<lparr>self := run_mini_batches (self st1) batches (learning_rate st1)\<rparr>;
                  st3 = st2\<lparr>learning_rate := learning_rate st2 * decay\<rparr>
              in if j mod 100 = 0
                 then (case compute_losses (self st3) (training_data st3) of
                         (Inl e, self1) \<Rightarrow> (Some e, st3\<lparr>self := self1\<rparr>)
                       | (Inr losses, self1) \<Rightarrow>
                           (case np_mean losses of
                              Inl e \<Rightarrow> (Some e, st3\<lparr>self := self1\<rparr>)
                            | Inr m \<Rightarrow>
                                (None, st3\<lparr>self := self1, printed := printed st3 @ [(j, m)]\<rparr>)))
                 else (None, st3)))"

fun train_loop :: "nat \<Rightarrow> int \<Rightarrow> real \<Rightarrow> nat list \<Rightarrow> train_state \<Rightarrow> error option \<times> train_state" where
  "train_loop n mini_batch_size decay [] st = (None, st)"
| "train_loop n mini_batch_size decay (j # js) st =
     (case train_epoch n mini_batch_size decay j st of
        (Some e, st1) \<Rightarrow> (Some e, st1)
      | (None, st1) \<Rightarrow> train_loop n mini_batch_size decay js st1)"

text \<open>
  \<^verbatim>\<open>train\<close> returns the error it raised, if any, and the state it left behind.
  \<^verbatim>\<open>range(epochs)\<close> is empty for \<open>epochs \<le> 0\<close>.
\<close>

definition train ::
    "network \<Rightarrow> example list \<Rightarrow> int \<Rightarrow> int \<Rightarrow> real \<Rightarrow> real \<Rightarrow> index_rng
      \<Rightarrow> error option \<times> train_state" where
  "train nn data epochs mini_batch_size lr decay g =
     train_loop (length data) mini_batch_size decay [0..<nat epochs]
       \<lparr>self = nn, training_data = data, learning_rate = lr, rng = g, printed = []\<rparr>"

section \<open>Shapes and the layer-wise specification\<close>

text \<open>
  A layer-size list is valid when it names at least an input and an output layer and
  every size is positive.
\<close>

definition valid_layer_sizes :: "int list \<Rightarrow> bool" where
  "valid_layer_sizes layer_sizes \<longleftrightarrow> 2 \<le> length layer_sizes \<and> list_all (\<lambda>n. 0 < n) layer_sizes"

text \<open>
  The shape invariant for a layer-size list: the weight matrix of layer \<open>l\<close> has shape
  (size of layer \<open>l + 1\<close>, size of layer \<open>l\<close>), its bias vector has shape (size of layer
  \<open>l + 1\<close>, 1), and the velocity buffers have the shapes of the weights and biases.
\<close>

definition shape_invariant :: "int list \<Rightarrow> network \<Rightarrow> bool" where
  "shape_invariant layer_sizes nn \<longleftrightarrow>
     map shape (weights nn) =
       map (\<lambda>(x, y). (nat y, nat x)) (zip (butlast layer_sizes) (tl layer_sizes))
   \<and> map shape (biases nn) = map (\<lambda>y. (nat y, 1)) (tl layer_sizes)
   \<and> map shape (velocity_w nn) = map shape (weights nn)
   \<and> map shape (velocity_b nn) = map shape (biases nn)"

definition all_zero :: "ndarray \<Rightarrow> bool" where
  "all_zero a \<longleftrightarrow> list_all (\<lambda>i. list_all (\<lambda>j. entry a i j = 0) [0..<ncols a]) [0..<nrows a]"

text \<open>Training examples whose input and target are column vectors of the given sizes.\<close>

definition examples_fit :: "nat \<Rightarrow> nat \<Rightarrow> example list \<Rightarrow> bool" where
  "examples_fit n_in n_out examples \<longleftrightarrow>
     list_all (\<lambda>(x, y). shape x = (n_in, 1) \<and> shape y = (n_out, 1)) examples"

text \<open>
  The same shapes along the list of (bias, weight) pairs that \<open>feedforward\<close> walks
  through, for the sizes from the input layer on.
\<close>

fun chain :: "nat list \<Rightarrow> (ndarray \<times> ndarray) list \<Rightarrow> bool" where
  "chain [n] [] = True"
| "chain (n # m # sizes) ((b, w) # rest) =
     (shape w = (m, n) \<and> shape b = (m, 1) \<and> chain (m # sizes) rest)"
| "chain sizes layers = False"

text \<open>
  The forward pass as the specification words it, on column vectors given by their
  entries: one layer is the affine transform (weight times previous activation plus bias)
  followed by the squashing function, and the layers are applied in order.
\<close>

definition affine_sigmoid :: "ndarray \<Rightarrow> ndarray \<Rightarrow> (nat \<Rightarrow> real) \<Rightarrow> nat \<Rightarrow> real" where
  "affine_sigmoid w b v i =
     sigmoid (sum_list (map (\<lambda>k. entry w i k * v k) [0..<ncols w]) + entry b i 0)"

fun forward_spec :: "(ndarray \<times> ndarray) list \<Rightarrow> (nat \<Rightarrow> real) \<Rightarrow> nat \<Rightarrow> real" where
  "forward_spec [] v = v"
| "forward_spec ((b, w) # rest) v = forward_spec rest (affine_sigmoid w b v)"

section \<open>The driver's data\<close>

text \<open>The XOR table of \<^verbatim>\<open>main\<close>, and a network of the sizes \<^verbatim>\<open>[2, 2, 1]\<close> it uses.\<close>

definition xor_training_data :: "example list" where
  "xor_training_data =
     [(np_array [[0], [0]], np_array [[0]]),
      (np_array [[0], [1]], np_array [[1]]),
      (np_array [[1], [0]], np_array [[1]]),
      (np_array [[1], [1]], np_array [[0]])]"

definition xor_network :: network where
  "xor_network =
     \<lparr>weights = [np_array [[1, -1], [-1, 1]], np_array [[1, 1]]],
      biases = [np_array [[0], [0]], np_array [[0]]],
      velocity_b = [np_zeros (2, 1), np_zeros (1, 1)],
      velocity_w = [np_zeros (2, 2), np_zeros (1, 2)]\<rparr>"

section \<open>Properties of the activation functions\<close>

lemma sigmoid_pos: "0 < sigmoid x"
  by (simp add: sigmoid_def add_pos_pos)

lemma sigmoid_less_one: "sigmoid x < 1"
  by (simp add: sigmoid_def add_pos_pos)



section \<open>Properties of the cost derivative\<close>



section \<open>Shuffling and mini-batches\<close>

lemma fisher_yates_mset: "i < length xs \<Longrightarrow> mset (fisher_yates i g xs) = mset xs"
proof (induction i arbitrary: g xs)
  case 0
  then show ?case by simp
next
  case (Suc i)
  let ?j = "g 0 mod Suc (Suc i)"
  let ?ys = "xs[Suc i := xs ! ?j, ?j := xs ! Suc i]"
  have j: "?j < length xs" using Suc.prems
  proof -
    have "?j < Suc (Suc i)" by simp
    with Suc.prems show ?thesis by linarith
  qed
  have "mset ?ys = mset xs"
    using Suc.prems j by (simp add: mset_swap)
  moreover have "i < length ?ys" using Suc.prems by simp
  ultimately show ?case using Suc.IH [of ?ys "\<lambda>k. g (Suc k)"]
    by (simp add: Let_def)
qed

lemma np_random_shuffle_mset: "mset (fst (np_random_shuffle g xs)) = mset xs"
proof (cases xs)
  case Nil
  then show ?thesis by (simp add: np_random_shuffle_def)
next
  case (Cons x rest)
  then have "length xs - 1 < length xs" by simp
  then show ?thesis by (simp add: np_random_shuffle_def fisher_yates_mset)
qed

lemma np_random_shuffle_length: "length (fst (np_random_shuffle g xs)) = length xs"
  using np_random_shuffle_mset [of g xs] by (metis size_mset)

lemma py_slice_batch:
  "0 < m \<Longrightarrow> k \<le> length xs \<Longrightarrow> py_slice xs (int k) (int k + int m) = take m (drop k xs)"
  by (auto simp: py_slice_def clip_index_def Let_def min_def nat_add_distrib)

lemma concat_batches: "concat (map (\<lambda>i. take m (drop (i * m) xs)) [0..<q]) = take (q * m) xs"
proof (induction q)
  case 0
  then show ?case by simp
next
  case (Suc q)
  have "take (q * m) xs @ take m (drop (q * m) xs) = take (q * m + m) xs"
    by (simp add: take_add)
  with Suc show ?case by (simp add: add.commute)
qed

lemma batch_count_covers:
  fixes m n :: nat
  assumes "0 < m"
  shows "n \<le> ((n + m - 1) div m) * m"
proof -
  let ?q = "(n + m - 1) div m"
  have "n + m - 1 = ?q * m + (n + m - 1) mod m" by simp
  moreover have "(n + m - 1) mod m < m" using assms by simp
  ultimately have "n + m - 1 < ?q * m + m" by linarith
  with assms show ?thesis by linarith
qed

lemma batch_start_in_range:
  fixes m n i :: nat
  assumes "0 < m" and "i < (n + m - 1) div m"
  shows "i * m < n"
proof -
  let ?q = "(n + m - 1) div m"
  from assms(2) have "Suc i \<le> ?q" by simp
  then have "Suc i * m \<le> ?q * m" by (rule mult_le_mono1)
  also have "\<dots> \<le> n + m - 1" by simp
  finally have "i * m + m \<le> n + m - 1" by simp
  with assms(1) show ?thesis by linarith
qed

lemma ceil_div:
  fixes m n :: nat
  assumes "0 < m"
  shows "(n + m - 1) div m = (if n mod m = 0 then n div m else Suc (n div m))"
proof (cases "n mod m = 0")
  case True
  then have "n = (n div m) * m" by (simp add: mod_eq_0_iff_dvd)
  then obtain k where k: "n = k * m" ..
  have "(k * m + (m - 1)) div m = k + (m - 1) div m"
    using assms div_mult_self3 [of m k "m - 1"] by blast
  moreover have "(m - 1) div m = 0" using assms by (intro div_less) simp
  ultimately have "(k * m + (m - 1)) div m = k" by (simp only: add_0_right)
  moreover have "n + m - 1 = k * m + (m - 1)" using assms k by simp
  ultimately show ?thesis using True k assms by simp
next
  case False
  let ?k = "n div m" and ?r = "n mod m"
  have r: "0 < ?r" "?r < m" using False assms by simp_all
  have "n + m - 1 = Suc ?k * m + (?r - 1)"
  proof -
    have "n = ?k * m + ?r" by simp
    then have "n + m - 1 = ?k * m + ?r + m - 1" by simp
    also have "\<dots> = Suc ?k * m + (?r - 1)" using r by simp
    finally show ?thesis .
  qed
  moreover have "(Suc ?k * m + (?r - 1)) div m = Suc ?k"
  proof -
    have "(Suc ?k * m + (?r - 1)) div m = Suc ?k + (?r - 1) div m"
      using assms div_mult_self3 [of m "Suc ?k" "?r - 1"] by blast
    moreover have "(?r - 1) div m = 0" using r by (intro div_less) linarith
    ultimately show ?thesis by (simp only: add_0_right)
  qed
  ultimately show ?thesis using False by simp
qed

lemma mini_batches_positive:
  assumes "0 < m"
  shows "mini_batches xs (length xs) (int m) =
           Inr (map (\<lambda>i. take m (drop (i * m) xs)) [0..<(length xs + m - 1) div m])"
proof -
  have "py_slice xs (int (i * m)) (int (i * m) + int m) = take m (drop (i * m) xs)"
    if "i < (length xs + m - 1) div m" for i
    using assms that batch_start_in_range [of m i "length xs"]
    by (intro py_slice_batch) simp_all
  then show ?thesis
    using assms by (simp add: mini_batches_def py_range_def comp_def)
qed

lemma batches_concat:
  assumes "0 < m"
  shows "concat (map (\<lambda>i. take m (drop (i * m) xs)) [0..<(length xs + m - 1) div m]) = xs"
  using batch_count_covers [OF assms, of "length xs"] by (simp add: concat_batches)

lemma batches_full:
  assumes "0 < m"
  shows "list_all (\<lambda>b. length b = m)
           (butlast (map (\<lambda>i. take m (drop (i * m) xs)) [0..<(length xs + m - 1) div m]))"
proof -
  let ?q = "(length xs + m - 1) div m"
  have "length (take m (drop (i * m) xs)) = m" if "i < ?q - 1" for i
  proof -
    from that have "?q - 1 < ?q" by simp
    then have "(?q - 1) * m < length xs"
      using assms by (intro batch_start_in_range)
    moreover from that have "Suc i * m \<le> (?q - 1) * m"
      by (intro mult_le_mono1) simp
    ultimately have "i * m + m \<le> length xs" by simp
    then show ?thesis by simp
  qed
  then show ?thesis
    by (simp add: list_all_length nth_butlast)
qed

lemma batches_last:
  assumes "0 < m" and "xs \<noteq> []"
  shows "length (last (map (\<lambda>i. take m (drop (i * m) xs)) [0..<(length xs + m - 1) div m]))
           = (if length xs mod m = 0 then m else length xs mod m)"
proof -
  let ?n = "length xs"
  let ?q = "(?n + m - 1) div m"
  have q: "?q = (if ?n mod m = 0 then ?n div m else Suc (?n div m))"
    using assms(1) by (rule ceil_div)
  have n: "0 < ?n" using assms(2) by simp
  have qpos: "0 < ?q"
    using batch_count_covers [OF assms(1), of ?n] n by (cases "?q") auto
  then have "[0..<?q] = [0..<?q - 1] @ [?q - 1]"
    by (metis Suc_pred' upt_Suc_append zero_le)
  then have "last (map (\<lambda>i. take m (drop (i * m) xs)) [0..<?q]) = take m (drop ((?q - 1) * m) xs)"
    by simp
  moreover have "min ?n m - 0 = min ?n m" by simp
  moreover have "?n - (?q - 1) * m = (if ?n mod m = 0 then m else ?n mod m)"
  proof (cases "?n mod m = 0")
    case True
    then have e: "?n = (?n div m) * m" by (simp add: mod_eq_0_iff_dvd)
    with n have "0 < ?n div m" by (metis gr0I mult_0)
    then have "(?n div m - 1) * m + m = (?n div m) * m"
      by (metis Suc_pred' mult_Suc add.commute One_nat_def)
    with e q True show ?thesis by simp
  next
    case False
    have "?n = (?n div m) * m + ?n mod m" by simp
    with q False show ?thesis by (simp add: minus_div_mult_eq_mod)
  qed
  moreover have "(if ?n mod m = 0 then m else ?n mod m) \<le> m"
    using assms(1) by (simp add: less_imp_le)
  ultimately show ?thesis by simp
qed

text \<open>
  C4: in an epoch of \<open>train\<close> with a positive mini-batch size, the shuffled list (as
  long as the list before the shuffle) is cut into consecutive mini-batches whose
  concatenation is the shuffled list itself, so the batches hold every training example
  exactly once. There are \<open>\<lceil>n / size\<rceil>\<close> batches; all but the last have the given size,
  and the last has the given size when it divides \<open>n\<close> and \<open>n mod size\<close> entries
  otherwise.
\<close>

theorem mini_batch_partition:
  fixes training_data :: "'a list"
  assumes "0 < mini_batch_size"
  shows "\<exists>batches.
           mini_batches (fst (np_random_shuffle g training_data)) (length training_data)
               mini_batch_size = Inr batches
         \<and> length (fst (np_random_shuffle g training_data)) = length training_data
         \<and> concat batches = fst (np_random_shuffle g training_data)
         \<and> mset (concat batches) = mset training_data
         \<and> length batches =
             (length training_data + nat mini_batch_size - 1) div nat mini_batch_size
         \<and> list_all (\<lambda>b. length b = nat mini_batch_size) (butlast batches)
         \<and> (training_data \<noteq> [] \<longrightarrow>
               length (last batches) =
                 (if length training_data mod nat mini_batch_size = 0 then nat mini_batch_size
                  else length training_data mod nat mini_batch_size))"
proof -
  let ?m = "nat mini_batch_size"
  let ?xs = "fst (np_random_shuffle g training_data)"
  let ?bs = "map (\<lambda>i. take ?m (drop (i * ?m) ?xs)) [0..<(length ?xs + ?m - 1) div ?m]"
  have m: "0 < ?m" and int_m: "int ?m = mini_batch_size" using assms by simp_all
  have len: "length ?xs = length training_data" by (rule np_random_shuffle_length)
  have ne: "?xs \<noteq> []" if "training_data \<noteq> []"
    using that len by (metis length_0_conv)
  have "mini_batches ?xs (length ?xs) (int ?m) = Inr ?bs"
    using m by (rule mini_batches_positive)
  then have "mini_batches ?xs (length training_data) mini_batch_size = Inr ?bs"
    by (simp only: len int_m)
  moreover have "concat ?bs = ?xs" using m by (rule batches_concat)
  moreover have "mset (concat ?bs) = mset training_data"
    using batches_concat [OF m, of ?xs] by (simp only: np_random_shuffle_mset)
  moreover have "length ?bs = (length training_data + ?m - 1) div ?m"
    by (simp add: len)
  moreover have "list_all (\<lambda>b. length b = ?m) (butlast ?bs)"
    using m by (rule batches_full)
  moreover have "length (last ?bs) =
      (if length training_data mod ?m = 0 then ?m else length training_data mod ?m)"
    if "training_data \<noteq> []"
    using batches_last [OF m ne [OF that]] by (simp only: len)
  ultimately show ?thesis using len by blast
qed

theorem mini_batch_partition_witness:
  "(0::int) < 2 \<and>
   (\<exists>batches.
      mini_batches (fst (np_random_shuffle (\<lambda>k. k) [1, 2, 3, 4, 5 :: nat]))
          (length [1, 2, 3, 4, 5 :: nat]) 2 = Inr batches
    \<and> length (fst (np_random_shuffle (\<lambda>k. k) [1, 2, 3, 4, 5 :: nat])) = length [1, 2, 3, 4, 5 :: nat]
    \<and> concat batches = fst (np_random_shuffle (\<lambda>k. k) [1, 2, 3, 4, 5 :: nat])
    \<and> mset (concat batches) = mset [1, 2, 3, 4, 5 :: nat]
    \<and> length batches = (length [1, 2, 3, 4, 5 :: nat] + nat 2 - 1) div nat 2
    \<and> list_all (\<lambda>b. length b = nat 2) (butlast batches)
    \<and> ([1, 2, 3, 4, 5 :: nat] \<noteq> [] \<longrightarrow>
          length (last batches) =
            (if length [1, 2, 3, 4, 5 :: nat] mod nat 2 = 0 then nat 2
             else length [1, 2, 3, 4, 5 :: nat] mod nat 2)))"
proof -
  have h: "(0::int) < 2" by simp
  show ?thesis
    by (rule conjI [OF h mini_batch_partition [OF h]])
qed


section \<open>What train leaves behind\<close>

lemma run_mini_batches_self: "run_mini_batches nn batches lr = nn"
  by (induction batches arbitrary: nn) (simp_all add: gradient_descent_def)

lemma feedforward_self: "snd (feedforward nn a) = nn"
  by (simp add: feedforward_def split: sum.splits)

lemma compute_losses_self: "snd (compute_losses nn examples) = nn"
proof (induction examples arbitrary: nn)
  case Nil
  then show ?case by simp
next
  case (Cons ex rest)
  obtain x y where ex: "ex = (x, y)" by (cases ex)
  obtain r nn1 where ff: "feedforward nn x = (r, nn1)" by (cases "feedforward nn x")
  then have nn1: "nn1 = nn" using feedforward_self [of nn x] by simp
  obtain r2 nn2 where cl: "compute_losses nn rest = (r2, nn2)" by (cases "compute_losses nn rest")
  then have nn2: "nn2 = nn" using Cons.IH [of nn] by simp
  show ?case
    by (simp add: ex ff nn1 cl nn2 split: sum.splits)
qed

lemma train_epoch_self: "self (snd (train_epoch n m decay j st)) = self st"
proof -
  obtain r nn where cl: "compute_losses (self st) (fst (np_random_shuffle (rng st) (training_data st))) = (r, nn)"
    by (cases "compute_losses (self st) (fst (np_random_shuffle (rng st) (training_data st)))")
  then have "nn = self st"
    using compute_losses_self [of "self st" "fst (np_random_shuffle (rng st) (training_data st))"] by simp
  with cl show ?thesis
    by (simp add: train_epoch_def Let_def run_mini_batches_self split_beta
          split: sum.splits)
qed

lemma train_epoch_data:
  "training_data (snd (train_epoch n m decay j st)) = fst (np_random_shuffle (rng st) (training_data st))"
  by (simp add: train_epoch_def Let_def split_beta split: sum.splits prod.splits)


lemma train_loop_self: "self (snd (train_loop n m decay js st)) = self st"
proof (induction js arbitrary: st)
  case Nil
  then show ?case by simp
next
  case (Cons j js)
  obtain r st1 where ep: "train_epoch n m decay j st = (r, st1)"
    by (cases "train_epoch n m decay j st")
  then have "self st1 = self st" using train_epoch_self [of n m decay j st] by simp
  with ep Cons.IH [of st1] show ?case by (cases r) simp_all
qed



section \<open>The forward pass on well-shaped networks\<close>

lemma layer_step:
  assumes w: "shape w = (m, n)" and b: "shape b = (m, 1)" and a: "shape a = (n, 1)"
  shows "\<exists>d z. np_dot w a = Inr d \<and> np_add d b = Inr z
           \<and> shape (np_map sigmoid z) = (m, 1)
           \<and> (\<forall>i<m. entry (np_map sigmoid z) i 0 =
                 sigmoid (sum_list (map (\<lambda>k. entry w i k * entry a k 0) [0..<n]) + entry b i 0))"
  using assms
  by (auto simp: np_dot_def np_add_def np_binop_def np_map_def shape_def
        broadcastable_def bdim_def bidx_def)

lemma affine_sigmoid_cong:
  assumes "\<forall>k<ncols w. v k = v' k"
  shows "affine_sigmoid w b v i = affine_sigmoid w b v' i"
proof -
  have "map (\<lambda>k. entry w i k * v k) [0..<ncols w] = map (\<lambda>k. entry w i k * v' k) [0..<ncols w]"
    using assms by simp
  then show ?thesis by (simp only: affine_sigmoid_def)
qed

lemma forward_spec_cong:
  assumes "chain sizes layers" and "\<forall>k<hd sizes. v k = v' k" and "i < last sizes"
  shows "forward_spec layers v i = forward_spec layers v' i"
  using assms
proof (induction sizes layers arbitrary: v v' rule: chain.induct)
  case (1 n)
  then show ?case by simp
next
  case (2 n m sizes b w rest)
  from "2.prems"(1) have w: "shape w = (m, n)" and rest: "chain (m # sizes) rest" by simp_all
  have "\<forall>k<hd (m # sizes). affine_sigmoid w b v k = affine_sigmoid w b v' k"
    using "2.prems"(2) w by (auto intro!: affine_sigmoid_cong simp: shape_def)
  moreover have "i < last (m # sizes)" using "2.prems"(3) by simp
  ultimately have "forward_spec rest (affine_sigmoid w b v) i = forward_spec rest (affine_sigmoid w b v') i"
    using rest by (intro "2.IH")
  then show ?case by simp
qed simp_all

lemma feedforward_loop_chain:
  assumes "chain sizes layers" and "shape (last activations) = (hd sizes, 1)"
  shows "\<exists>acts. feedforward_loop layers activations = Inr acts
           \<and> shape (last acts) = (last sizes, 1)
           \<and> (\<forall>i<last sizes. entry (last acts) i 0 =
                 forward_spec layers (\<lambda>k. entry (last activations) k 0) i)"
  using assms
proof (induction sizes layers arbitrary: activations rule: chain.induct)
  case (1 n)
  then show ?case by simp
next
  case (2 n m sizes b w rest)
  from "2.prems"(1) have w: "shape w = (m, n)" and b: "shape b = (m, 1)"
    and rest: "chain (m # sizes) rest" by simp_all
  from "2.prems"(2) have a: "shape (last activations) = (n, 1)" by simp
  from layer_step [OF w b a] obtain d z where
    d: "np_dot w (last activations) = Inr d" and z: "np_add d b = Inr z"
    and sh: "shape (np_map sigmoid z) = (m, 1)"
    and en: "\<forall>i<m. entry (np_map sigmoid z) i 0 =
               sigmoid (sum_list (map (\<lambda>k. entry w i k * entry (last activations) k 0) [0..<n])
                 + entry b i 0)"
    by blast
  let ?acts = "activations @ [np_map sigmoid z]"
  have "shape (last ?acts) = (hd (m # sizes), 1)" using sh by simp
  from "2.IH" [OF rest this] obtain acts where
    r: "feedforward_loop rest ?acts = Inr acts"
    and rs: "shape (last acts) = (last (m # sizes), 1)"
    and re: "\<forall>i<last (m # sizes). entry (last acts) i 0 =
               forward_spec rest (\<lambda>k. entry (last ?acts) k 0) i"
    by blast
  have ncols: "ncols w = n" using w by (simp add: shape_def)
  have "forward_spec rest (\<lambda>k. entry (last ?acts) k 0) i =
        forward_spec rest (affine_sigmoid w b (\<lambda>k. entry (last activations) k 0)) i"
    if "i < last (m # sizes)" for i
  proof (rule forward_spec_cong [OF rest _ that])
    show "\<forall>k<hd (m # sizes). entry (last ?acts) k 0 =
            affine_sigmoid w b (\<lambda>k. entry (last activations) k 0) k"
      using en by (simp add: affine_sigmoid_def ncols)
  qed
  with re have "\<forall>i<last (n # m # sizes). entry (last acts) i 0 =
      forward_spec ((b, w) # rest) (\<lambda>k. entry (last activations) k 0) i"
    by simp
  moreover have "feedforward_loop ((b, w) # rest) activations = Inr acts"
    using d z r by simp
  moreover have "shape (last acts) = (last (n # m # sizes), 1)" using rs by simp
  ultimately show ?case by blast
qed simp_all

lemma feedforward_loop_range:
  assumes "feedforward_loop layers activations = Inr acts"
    and "layers \<noteq> [] \<or> (\<forall>i j. 0 < entry (last activations) i j \<and> entry (last activations) i j < 1)"
  shows "0 < entry (last acts) i j \<and> entry (last acts) i j < 1"
  using assms
proof (induction layers arbitrary: activations)
  case Nil
  then show ?case by simp
next
  case (Cons layer rest)
  obtain b w where layer: "layer = (b, w)" by (cases layer)
  from Cons.prems(1) layer obtain d z where
    "np_dot w (last activations) = Inr d" "np_add d b = Inr z"
    and r: "feedforward_loop rest (activations @ [np_map sigmoid z]) = Inr acts"
    by (auto split: sum.splits)
  have "\<forall>i j. 0 < entry (last (activations @ [np_map sigmoid z])) i j
             \<and> entry (last (activations @ [np_map sigmoid z])) i j < 1"
    by (simp add: np_map_def sigmoid_pos sigmoid_less_one)
  then show ?case using Cons.IH [OF r] by blast
qed

lemma chain_of_shapes:
  assumes "layer_sizes \<noteq> []"
    and "map shape ws = map (\<lambda>(x, y). (nat y, nat x)) (zip (butlast layer_sizes) (tl layer_sizes))"
    and "map shape bs = map (\<lambda>y. (nat y, 1)) (tl layer_sizes)"
  shows "chain (map nat layer_sizes) (zip bs ws)"
  using assms
proof (induction layer_sizes arbitrary: ws bs)
  case Nil
  then show ?case by simp
next
  case (Cons x rest)
  show ?case
  proof (cases rest)
    case Nil
    with Cons.prems show ?thesis by simp
  next
    case (Cons y rest')
    with Cons.prems obtain w ws' b bs' where
      ws: "ws = w # ws'" and bs: "bs = b # bs'"
      and w: "shape w = (nat y, nat x)" and b: "shape b = (nat y, 1)"
      and ws': "map shape ws' = map (\<lambda>(x, y). (nat y, nat x)) (zip (butlast rest) (tl rest))"
      and bs': "map shape bs' = map (\<lambda>y. (nat y, 1)) (tl rest)"
      by (auto simp: map_eq_Cons_conv)
    have "chain (map nat rest) (zip bs' ws')"
      using Cons ws' bs' by (intro Cons.IH) simp_all
    then show ?thesis using Cons ws bs w b by simp
  qed
qed

section \<open>The constructor and the shape invariant\<close>

lemma randn_shape:
  assumes "0 \<le> d0" and "0 \<le> d1"
  shows "\<exists>a g'. randn g d0 d1 = Inr (a, g') \<and> shape a = (nat d0, nat d1)"
  using assms by (simp add: randn_def shape_def)

lemma initialize_weights_xavier_shape:
  assumes "0 < n_in" and "0 \<le> n_out"
  shows "\<exists>w g'. initialize_weights_xavier g n_in n_out = Inr (w, g') \<and> shape w = (nat n_out, nat n_in)"
  using assms by (simp add: initialize_weights_xavier_def randn_def shape_def np_map_def)

lemma init_weights_shapes:
  assumes "list_all (\<lambda>(x, y). 0 < x \<and> 0 \<le> y) pairs"
  shows "\<exists>ws g'. init_weights g pairs = Inr (ws, g')
           \<and> map shape ws = map (\<lambda>(x, y). (nat y, nat x)) pairs"
  using assms
proof (induction pairs arbitrary: g)
  case Nil
  then show ?case by simp
next
  case (Cons p rest)
  obtain x y where p: "p = (x, y)" by (cases p)
  with Cons.prems have "0 < x" "0 \<le> y" and rest: "list_all (\<lambda>(x, y). 0 < x \<and> 0 \<le> y) rest"
    by simp_all
  then obtain w g1 where w: "initialize_weights_xavier g x y = Inr (w, g1)"
    and sw: "shape w = (nat y, nat x)"
    using initialize_weights_xavier_shape [of x y g] by blast
  from Cons.IH [OF rest, of g1] obtain ws g2 where
    "init_weights g1 rest = Inr (ws, g2)"
    "map shape ws = map (\<lambda>(x, y). (nat y, nat x)) rest"
    by blast
  with p w sw show ?case by simp
qed

lemma init_biases_shapes:
  assumes "list_all (\<lambda>y. 0 \<le> y) sizes"
  shows "\<exists>bs g'. init_biases g sizes = Inr (bs, g')
           \<and> map shape bs = map (\<lambda>y. (nat y, 1)) sizes"
  using assms
proof (induction sizes arbitrary: g)
  case Nil
  then show ?case by simp
next
  case (Cons y rest)
  then have "0 \<le> y" and rest: "list_all (\<lambda>y. 0 \<le> y) rest" by simp_all
  then obtain b g1 where b: "randn g y 1 = Inr (b, g1)" and sb: "shape b = (nat y, 1)"
    using randn_shape [of y 1 g] by auto
  from Cons.IH [OF rest, of g1] obtain bs g2 where
    "init_biases g1 rest = Inr (bs, g2)" "map shape bs = map (\<lambda>y. (nat y, 1)) rest"
    by blast
  with b sb show ?case by simp
qed

lemma all_zero_np_zeros: "all_zero (np_zeros s)"
  by (simp add: all_zero_def np_zeros_def list_all_iff)

lemma shape_np_zeros: "shape (np_zeros s) = s"
  by (simp add: shape_def np_zeros_def)

lemma NeuralNetwork_init_establishes:
  assumes "list_all (\<lambda>n. 0 < n) layer_sizes"
  shows "\<exists>nn g'. NeuralNetwork_init g layer_sizes = Inr (nn, g')
           \<and> shape_invariant layer_sizes nn
           \<and> list_all all_zero (velocity_w nn) \<and> list_all all_zero (velocity_b nn)"
proof -
  have pos: "\<forall>n\<in>set layer_sizes. 0 < n" using assms by (simp add: list_all_iff)
  have "list_all (\<lambda>(x, y). 0 < x \<and> 0 \<le> y) (zip (butlast layer_sizes) (tl layer_sizes))"
  proof -
    have "0 < x \<and> 0 \<le> y" if "(x, y) \<in> set (zip (butlast layer_sizes) (tl layer_sizes))" for x y
    proof -
      from that have "x \<in> set (butlast layer_sizes)" "y \<in> set (tl layer_sizes)"
        by (auto dest: set_zip_leftD set_zip_rightD)
      then have "x \<in> set layer_sizes" "y \<in> set layer_sizes"
        by (auto dest: in_set_butlastD list.set_sel(2) [rotated])
      with pos show ?thesis by force
    qed
    then show ?thesis by (auto simp: list_all_iff)
  qed
  then obtain ws g1 where ws: "init_weights g (zip (butlast layer_sizes) (tl layer_sizes)) = Inr (ws, g1)"
    and sws: "map shape ws = map (\<lambda>(x, y). (nat y, nat x)) (zip (butlast layer_sizes) (tl layer_sizes))"
    using init_weights_shapes by blast
  have "list_all (\<lambda>y. 0 \<le> y) (tl layer_sizes)"
    using pos by (cases layer_sizes) (auto simp: list_all_iff less_imp_le)
  then obtain bs g2 where bs: "init_biases g1 (tl layer_sizes) = Inr (bs, g2)"
    and sbs: "map shape bs = map (\<lambda>y. (nat y, 1)) (tl layer_sizes)"
    using init_biases_shapes by blast
  let ?nn = "\<lparr>weights = ws, biases = bs,
              velocity_b = map (\<lambda>b. np_zeros (shape b)) bs,
              velocity_w = map (\<lambda>w. np_zeros (shape w)) ws\<rparr>"
  have "NeuralNetwork_init g layer_sizes = Inr (?nn, g2)"
    using ws bs by (simp add: NeuralNetwork_init_def)
  moreover have "shape_invariant layer_sizes ?nn"
    using sws sbs by (simp add: shape_invariant_def comp_def shape_np_zeros)
  moreover have "list_all all_zero (velocity_w ?nn)" "list_all all_zero (velocity_b ?nn)"
    by (simp_all add: list_all_iff all_zero_np_zeros)
  ultimately show ?thesis by blast
qed

lemma shape_invariant_nth:
  assumes "shape_invariant layer_sizes nn" and "l < length layer_sizes - 1"
  shows "shape (weights nn ! l) = (nat (layer_sizes ! Suc l), nat (layer_sizes ! l))
       \<and> shape (biases nn ! l) = (nat (layer_sizes ! Suc l), 1)
       \<and> shape (velocity_w nn ! l) = shape (weights nn ! l)
       \<and> shape (velocity_b nn ! l) = shape (biases nn ! l)"
proof -
  let ?pairs = "zip (butlast layer_sizes) (tl layer_sizes)"
  from assms(1) have w: "map shape (weights nn) = map (\<lambda>(x, y). (nat y, nat x)) ?pairs"
    and b: "map shape (biases nn) = map (\<lambda>y. (nat y, 1)) (tl layer_sizes)"
    and vw: "map shape (velocity_w nn) = map shape (weights nn)"
    and vb: "map shape (velocity_b nn) = map shape (biases nn)"
    by (simp_all add: shape_invariant_def)
  have lp: "l < length ?pairs" using assms(2) by simp
  have lw: "l < length (weights nn)" using w lp by (metis length_map)
  have lb: "l < length (biases nn)" using b assms(2) by (metis length_map length_tl)
  have lvw: "l < length (velocity_w nn)" using vw lw by (metis length_map)
  have lvb: "l < length (velocity_b nn)" using vb lb by (metis length_map)
  have "?pairs ! l = (layer_sizes ! l, layer_sizes ! Suc l)"
    using assms(2) by (simp add: nth_butlast nth_tl)
  then have "map (\<lambda>(x, y). (nat y, nat x)) ?pairs ! l = (nat (layer_sizes ! Suc l), nat (layer_sizes ! l))"
    using lp by simp
  then have 1: "shape (weights nn ! l) = (nat (layer_sizes ! Suc l), nat (layer_sizes ! l))"
    using w lw by (metis nth_map)
  have "map (\<lambda>y. (nat y, 1)) (tl layer_sizes) ! l = (nat (layer_sizes ! Suc l), 1)"
    using assms(2) by (simp add: nth_tl)
  then have 2: "shape (biases nn ! l) = (nat (layer_sizes ! Suc l), 1)"
    using b lb by (metis nth_map)
  have 3: "shape (velocity_w nn ! l) = shape (weights nn ! l)"
    using vw lw lvw by (metis nth_map)
  have 4: "shape (velocity_b nn ! l) = shape (biases nn ! l)"
    using vb lb lvb by (metis nth_map)
  from 1 2 3 4 show ?thesis by blast
qed

lemma shape_invariant_lengths:
  assumes "shape_invariant layer_sizes nn"
  shows "length (weights nn) = length layer_sizes - 1 \<and> length (biases nn) = length layer_sizes - 1
       \<and> length (velocity_w nn) = length layer_sizes - 1
       \<and> length (velocity_b nn) = length layer_sizes - 1"
proof -
  from assms have w: "map shape (weights nn) = map (\<lambda>(x, y). (nat y, nat x)) (zip (butlast layer_sizes) (tl layer_sizes))"
    and b: "map shape (biases nn) = map (\<lambda>y. (nat y, 1)) (tl layer_sizes)"
    and vw: "map shape (velocity_w nn) = map shape (weights nn)"
    and vb: "map shape (velocity_b nn) = map shape (biases nn)"
    by (simp_all add: shape_invariant_def)
  have "length (map shape (weights nn)) = length layer_sizes - 1" by (simp only: w) simp
  then have lw: "length (weights nn) = length layer_sizes - 1" by simp
  have "length (map shape (biases nn)) = length layer_sizes - 1" by (simp only: b) simp
  then have lb: "length (biases nn) = length layer_sizes - 1" by simp
  have "length (map shape (velocity_w nn)) = length (weights nn)" by (simp only: vw) simp
  then have lvw: "length (velocity_w nn) = length layer_sizes - 1" using lw by simp
  have "length (map shape (velocity_b nn)) = length (biases nn)" by (simp only: vb) simp
  then have lvb: "length (velocity_b nn) = length layer_sizes - 1" using lb by simp
  from lw lb lvw lvb show ?thesis by blast
qed

section \<open>Training on well-shaped data\<close>

lemma feedforward_well_shaped:
  assumes ne: "layer_sizes \<noteq> []" and inv: "shape_invariant layer_sizes nn"
    and a: "shape a = (nat (hd layer_sizes), 1)"
  shows "\<exists>out. feedforward nn a = (Inr out, nn)
           \<and> shape out = (nat (last layer_sizes), 1)
           \<and> (\<forall>i<nat (last layer_sizes).
                 entry out i 0 = forward_spec (zip (biases nn) (weights nn)) (\<lambda>k. entry a k 0) i)
           \<and> (2 \<le> length layer_sizes \<longrightarrow> (\<forall>i j. 0 < entry out i j \<and> entry out i j < 1))"
proof -
  let ?layers = "zip (biases nn) (weights nn)"
  have ch: "chain (map nat layer_sizes) ?layers"
    using ne inv by (intro chain_of_shapes) (simp_all add: shape_invariant_def)
  have hd: "hd (map nat layer_sizes) = nat (hd layer_sizes)"
    and last: "last (map nat layer_sizes) = nat (last layer_sizes)"
    using ne by (simp_all add: hd_map last_map)
  have "shape (last [a]) = (hd (map nat layer_sizes), 1)" using a hd by simp
  from feedforward_loop_chain [OF ch this] obtain acts where
    loop: "feedforward_loop ?layers [a] = Inr acts"
    and sh: "shape (last acts) = (nat (last layer_sizes), 1)"
    and en: "\<forall>i<nat (last layer_sizes). entry (last acts) i 0 =
               forward_spec ?layers (\<lambda>k. entry a k 0) i"
    by (auto simp: last)
  have "0 < entry (last acts) i j \<and> entry (last acts) i j < 1"
    if "2 \<le> length layer_sizes" for i j
  proof -
    from shape_invariant_lengths [OF inv] that
    have "length (weights nn) \<noteq> 0" "length (biases nn) \<noteq> 0" by simp_all
    then have "?layers \<noteq> []" by (cases "biases nn"; cases "weights nn") simp_all
    then show ?thesis using feedforward_loop_range [OF loop] by blast
  qed
  moreover have "feedforward nn a = (Inr (last acts), nn)"
    using loop by (simp add: feedforward_def)
  ultimately show ?thesis using sh en by blast
qed

lemma cost_derivative_same_shape:
  assumes "shape a = shape y"
  shows "\<exists>d. cost_derivative a y = Inr d \<and> shape d = shape a
           \<and> (\<forall>i<nrows d. \<forall>j<ncols d. entry d i j = entry a i j - entry y i j)"
  using assms
  by (auto simp: cost_derivative_def np_sub_def np_binop_def shape_def
        broadcastable_def bdim_def bidx_def)

lemma shape_np_map: "shape (np_map f a) = shape a"
  by (simp add: shape_def np_map_def)

lemma compute_losses_well_shaped:
  assumes ne: "layer_sizes \<noteq> []" and inv: "shape_invariant layer_sizes nn"
    and fit: "examples_fit (nat (hd layer_sizes)) (nat (last layer_sizes)) examples"
  shows "\<exists>losses. compute_losses nn examples = (Inr losses, nn)
           \<and> list_all (\<lambda>d. shape d = (nat (last layer_sizes), 1)) losses"
  using fit
proof (induction examples)
  case Nil
  then show ?case by simp
next
  case (Cons ex rest)
  obtain x y where ex: "ex = (x, y)" by (cases ex)
  with Cons.prems have x: "shape x = (nat (hd layer_sizes), 1)"
    and y: "shape y = (nat (last layer_sizes), 1)"
    and rest: "examples_fit (nat (hd layer_sizes)) (nat (last layer_sizes)) rest"
    by (simp_all add: examples_fit_def)
  from feedforward_well_shaped [OF ne inv x] obtain out where
    ff: "feedforward nn x = (Inr out, nn)" and out: "shape out = (nat (last layer_sizes), 1)"
    by blast
  from out y have "shape out = shape y" by simp
  from cost_derivative_same_shape [OF this] obtain d where
    d: "cost_derivative out y = Inr d" and sd: "shape d = shape out"
    by blast
  from Cons.IH [OF rest] obtain losses where
    "compute_losses nn rest = (Inr losses, nn)"
    "list_all (\<lambda>d. shape d = (nat (last layer_sizes), 1)) losses"
    by blast
  with ex ff d sd out show ?case by (simp add: shape_np_map)
qed

lemma np_mean_same_shapes:
  assumes "list_all (\<lambda>d. shape d = s) losses"
  shows "\<exists>m. np_mean losses = Inr m"
proof (cases losses)
  case Nil
  then show ?thesis by (simp add: np_mean_def)
next
  case (Cons a rest)
  with assms have "list_all (\<lambda>b. shape b = shape a) rest"
    by (simp add: list_all_iff)
  with Cons show ?thesis by (simp add: np_mean_def)
qed

lemma mini_batches_nonzero:
  assumes "m \<noteq> 0"
  shows "\<exists>batches. mini_batches xs n m = Inr batches"
  using assms by (simp add: mini_batches_def py_range_def)

lemma examples_fit_shuffle:
  "examples_fit n_in n_out (fst (np_random_shuffle g examples)) = examples_fit n_in n_out examples"
proof -
  have "set (fst (np_random_shuffle g examples)) = set examples"
    using np_random_shuffle_mset [of g examples] by (rule mset_eq_setD)
  then show ?thesis by (simp add: examples_fit_def list_all_iff)
qed

lemma train_epoch_well_shaped:
  assumes m: "m \<noteq> 0" and ne: "layer_sizes \<noteq> []" and inv: "shape_invariant layer_sizes (self st)"
    and fit: "examples_fit (nat (hd layer_sizes)) (nat (last layer_sizes)) (training_data st)"
  shows "fst (train_epoch n m decay j st) = None"
proof -
  let ?xs = "fst (np_random_shuffle (rng st) (training_data st))"
  from mini_batches_nonzero [OF m] obtain batches where
    mb: "mini_batches ?xs n m = Inr batches" by blast
  have "examples_fit (nat (hd layer_sizes)) (nat (last layer_sizes)) ?xs"
    using fit by (simp only: examples_fit_shuffle)
  from compute_losses_well_shaped [OF ne inv this] obtain losses where
    cl: "compute_losses (self st) ?xs = (Inr losses, self st)"
    and sh: "list_all (\<lambda>d. shape d = (nat (last layer_sizes), 1)) losses"
    by blast
  from np_mean_same_shapes [OF sh] obtain mean where mean: "np_mean losses = Inr mean" by blast
  show ?thesis
    using mb cl mean
    by (simp add: train_epoch_def Let_def split_beta run_mini_batches_self)
qed

lemma train_loop_well_shaped:
  assumes m: "m \<noteq> 0" and ne: "layer_sizes \<noteq> []" and inv: "shape_invariant layer_sizes (self st)"
    and fit: "examples_fit (nat (hd layer_sizes)) (nat (last layer_sizes)) (training_data st)"
  shows "fst (train_loop n m decay js st) = None"
  using inv fit
proof (induction js arbitrary: st)
  case Nil
  then show ?case by simp
next
  case (Cons j js)
  obtain r st1 where ep: "train_epoch n m decay j st = (r, st1)"
    by (cases "train_epoch n m decay j st")
  have r: "r = None"
    using train_epoch_well_shaped [OF m ne Cons.prems, of n decay j] ep by simp
  have "self st1 = self st" using train_epoch_self [of n m decay j st] ep by simp
  then have inv1: "shape_invariant layer_sizes (self st1)" using Cons.prems(1) by simp
  have "training_data st1 = fst (np_random_shuffle (rng st) (training_data st))"
    using train_epoch_data [of n m decay j st] ep by simp
  then have fit1: "examples_fit (nat (hd layer_sizes)) (nat (last layer_sizes)) (training_data st1)"
    using Cons.prems(2) by (simp only: examples_fit_shuffle)
  show ?case using ep r Cons.IH [OF inv1 fit1] by simp
qed

lemma train_well_shaped:
  assumes "m \<noteq> 0" and "layer_sizes \<noteq> []" and "shape_invariant layer_sizes nn"
    and "examples_fit (nat (hd layer_sizes)) (nat (last layer_sizes)) data"
  shows "fst (train nn data epochs m lr decay g) = None"
  unfolding train_def
  using assms by (intro train_loop_well_shaped) simp_all

lemma xor_network_shapes: "shape_invariant [2, 2, 1] xor_network"
  by (simp add: shape_invariant_def xor_network_def np_array_def np_zeros_def shape_def)

lemma xor_training_data_fits: "examples_fit 2 1 xor_training_data"
  by (simp add: examples_fit_def xor_training_data_def np_array_def shape_def)

section \<open>The empty methods and train\<close>

text \<open>
  The claim C1, that running \<open>train\<close> surfaces a failure caused by the empty methods,
  does not hold: the driver's own call (the XOR table, batch size 4, 20000 epochs, rate
  0.1, decay 0.9999) on a network of the sizes 2, 2, 1 ends without an error.
\<close>

theorem train_completes_on_xor:
  "fst (train xor_network xor_training_data 20000 4 0.1 0.9999 (\<lambda>k. k)) = None"
  using xor_network_shapes xor_training_data_fits
  by (intro train_well_shaped [where layer_sizes = "[2, 2, 1]"]) simp_all

text \<open>
  C1, amended: both empty methods return \<^verbatim>\<open>None\<close> and leave the network as it is, and
  so does the loop that calls \<open>gradient_descent\<close> on every mini-batch and drops its
  result; \<open>backpropagation\<close> is never called. No error arises from them: for a
  non-zero mini-batch size, a network that has the shapes of a non-empty layer-size list
  and examples whose inputs and targets are column vectors of its input and output size,
  \<open>train\<close> completes without an error.
\<close>

theorem empty_methods_do_not_fail_train:
  assumes "mini_batch_size \<noteq> 0" and "layer_sizes \<noteq> []"
    and "shape_invariant layer_sizes nn"
    and "examples_fit (nat (hd layer_sizes)) (nat (last layer_sizes)) data"
  shows "backpropagation nn x y = ((), nn)
       \<and> gradient_descent nn mini_batch eta mu = ((), nn)
       \<and> run_mini_batches nn batches eta = nn
       \<and> fst (train nn data epochs mini_batch_size lr decay g) = None"
  using train_well_shaped [OF assms]
  by (simp add: backpropagation_def gradient_descent_def run_mini_batches_self)

theorem empty_methods_do_not_fail_train_witness:
  "(4::int) \<noteq> 0 \<and> [2, 2, 1 :: int] \<noteq> []
   \<and> shape_invariant [2, 2, 1] xor_network
   \<and> examples_fit (nat (hd [2, 2, 1])) (nat (last [2, 2, 1])) xor_training_data
   \<and> backpropagation xor_network (np_array [[0], [1]]) (np_array [[1]]) = ((), xor_network)
   \<and> gradient_descent xor_network xor_training_data 0.1 0.9 = ((), xor_network)
   \<and> run_mini_batches xor_network [xor_training_data] 0.1 = xor_network
   \<and> fst (train xor_network xor_training_data 20000 4 0.1 0.9999 (\<lambda>k. k)) = None"
proof -
  have h1: "(4::int) \<noteq> 0" and h2: "[2, 2, 1 :: int] \<noteq> []" by simp_all
  have h3: "shape_invariant [2, 2, 1] xor_network"
    by (simp add: shape_invariant_def xor_network_def np_array_def np_zeros_def shape_def)
  have h4: "examples_fit (nat (hd [2, 2, 1])) (nat (last [2, 2, 1])) xor_training_data"
    by (simp add: examples_fit_def xor_training_data_def np_array_def shape_def)
  show ?thesis
    using h1 h2 h3 h4 empty_methods_do_not_fail_train [OF h1 h2 h3 h4] by blast
qed


text \<open>
  The claim C2, that \<open>train\<close> completes without error for every choice of its
  arguments, does not hold: with a mini-batch size of 0 the first epoch raises
  \<^verbatim>\<open>ValueError\<close> (\<^verbatim>\<open>range\<close> with a zero step).
\<close>

theorem train_zero_batch_size_raises:
  "fst (train xor_network xor_training_data 1 0 0.1 0.9999 (\<lambda>k. k)) = Some ValueError"
  by (simp add: train_def train_epoch_def mini_batches_def py_range_def split_beta)

text \<open>
  C2, amended: for every network, dataset, number of epochs, mini-batch size, learning
  rate and decay, \<open>train\<close> leaves \<open>weights\<close>, \<open>biases\<close>, \<open>velocity_w\<close> and
  \<open>velocity_b\<close> exactly as they were, whether it completes or raises; and it completes
  without an error when the mini-batch size is not 0, the network has the shapes of a
  non-empty layer-size list and every example is a pair of column vectors of its input and
  output size.
\<close>

theorem train_leaves_parameters:
  "weights (self (snd (train nn data epochs mini_batch_size lr decay g))) = weights nn
   \<and> biases (self (snd (train nn data epochs mini_batch_size lr decay g))) = biases nn
   \<and> velocity_w (self (snd (train nn data epochs mini_batch_size lr decay g))) = velocity_w nn
   \<and> velocity_b (self (snd (train nn data epochs mini_batch_size lr decay g))) = velocity_b nn
   \<and> (mini_batch_size \<noteq> 0 \<and> layer_sizes \<noteq> [] \<and> shape_invariant layer_sizes nn
        \<and> examples_fit (nat (hd layer_sizes)) (nat (last layer_sizes)) data
      \<longrightarrow> fst (train nn data epochs mini_batch_size lr decay g) = None)"
proof -
  have "self (snd (train nn data epochs mini_batch_size lr decay g)) = nn"
    by (simp add: train_def train_loop_self)
  moreover have "fst (train nn data epochs mini_batch_size lr decay g) = None"
    if "mini_batch_size \<noteq> 0" and "layer_sizes \<noteq> []" and "shape_invariant layer_sizes nn"
      and "examples_fit (nat (hd layer_sizes)) (nat (last layer_sizes)) data"
    using that by (rule train_well_shaped)
  ultimately show ?thesis by simp
qed

theorem train_leaves_parameters_witness:
  "(4::int) \<noteq> 0 \<and> [2, 2, 1 :: int] \<noteq> []
   \<and> shape_invariant [2, 2, 1] xor_network
   \<and> examples_fit (nat (hd [2, 2, 1])) (nat (last [2, 2, 1])) xor_training_data
   \<and> weights (self (snd (train xor_network xor_training_data 20000 4 0.1 0.9999 (\<lambda>k. k))))
       = weights xor_network
   \<and> biases (self (snd (train xor_network xor_training_data 20000 4 0.1 0.9999 (\<lambda>k. k))))
       = biases xor_network
   \<and> velocity_w (self (snd (train xor_network xor_training_data 20000 4 0.1 0.9999 (\<lambda>k. k))))
       = velocity_w xor_network
   \<and> velocity_b (self (snd (train xor_network xor_training_data 20000 4 0.1 0.9999 (\<lambda>k. k))))
       = velocity_b xor_network
   \<and> fst (train xor_network xor_training_data 20000 4 0.1 0.9999 (\<lambda>k. k)) = None"
proof -
  have h1: "(4::int) \<noteq> 0" and h2: "[2, 2, 1 :: int] \<noteq> []" by simp_all
  have h3: "shape_invariant [2, 2, 1] xor_network"
    by (simp add: shape_invariant_def xor_network_def np_array_def np_zeros_def shape_def)
  have h4: "examples_fit (nat (hd [2, 2, 1])) (nat (last [2, 2, 1])) xor_training_data"
    by (simp add: examples_fit_def xor_training_data_def np_array_def shape_def)
  show ?thesis
    using h1 h2 h3 h4
      train_leaves_parameters [of xor_network xor_training_data 20000 4 "0.1" "0.9999" "\<lambda>k. k" "[2, 2, 1]"]
    by blast
qed






text \<open>The order does change: with all draws 0, one epoch rotates the XOR table.\<close>

lemma train_loop_single_epoch_data:
  "training_data (snd (train_loop n m decay [j] st))
     = fst (np_random_shuffle (rng st) (training_data st))"
proof -
  obtain r st1 where ep: "train_epoch n m decay j st = (r, st1)"
    by (cases "train_epoch n m decay j st")
  then have "training_data st1 = fst (np_random_shuffle (rng st) (training_data st))"
    using train_epoch_data [of n m decay j st] by simp
  with ep show ?thesis by (cases r) simp_all
qed

lemma train_reorders_xor_data:
  "training_data (snd (train xor_network xor_training_data 1 4 0.1 0.9999 (\<lambda>k. 0)))
     = [xor_training_data ! 1, xor_training_data ! 2, xor_training_data ! 3, xor_training_data ! 0]"
  by (simp add: train_def train_loop_single_epoch_data np_random_shuffle_def
        xor_training_data_def del: train_loop.simps)


section \<open>The forward pass\<close>



text \<open>
  C9: \<open>feedforward\<close> does not change the network: after any call the weights, biases
  and both velocity buffers are those from before the call.
\<close>

theorem feedforward_does_not_mutate:
  "weights (snd (feedforward nn a)) = weights nn
   \<and> biases (snd (feedforward nn a)) = biases nn
   \<and> velocity_w (snd (feedforward nn a)) = velocity_w nn
   \<and> velocity_b (snd (feedforward nn a)) = velocity_b nn"
  by (simp add: feedforward_self)


section \<open>The shape invariant\<close>

text \<open>
  C6: for a valid layer-size list the constructor succeeds and establishes the shape
  invariant: there is one weight matrix, bias vector and pair of velocity buffers per
  layer; the weight matrix of layer \<open>l\<close> has shape (size \<open>l + 1\<close>, size \<open>l\<close>), the bias
  vector has shape (size \<open>l + 1\<close>, 1), and the velocity buffers have the shapes of the
  weights and biases and hold zeros only. Every operation (\<open>feedforward\<close>,
  \<open>backpropagation\<close>, \<open>gradient_descent\<close>, \<open>train\<close>) preserves the invariant.
\<close>

theorem constructor_shape_invariant:
  assumes "valid_layer_sizes layer_sizes"
  shows "\<exists>nn g'. NeuralNetwork_init g layer_sizes = Inr (nn, g')
           \<and> shape_invariant layer_sizes nn
           \<and> length (weights nn) = length layer_sizes - 1
           \<and> length (biases nn) = length layer_sizes - 1
           \<and> length (velocity_w nn) = length layer_sizes - 1
           \<and> length (velocity_b nn) = length layer_sizes - 1
           \<and> (\<forall>l<length layer_sizes - 1.
                 shape (weights nn ! l) = (nat (layer_sizes ! Suc l), nat (layer_sizes ! l))
               \<and> shape (biases nn ! l) = (nat (layer_sizes ! Suc l), 1)
               \<and> shape (velocity_w nn ! l) = shape (weights nn ! l)
               \<and> shape (velocity_b nn ! l) = shape (biases nn ! l)
               \<and> all_zero (velocity_w nn ! l) \<and> all_zero (velocity_b nn ! l))
           \<and> (\<forall>nn'. shape_invariant layer_sizes nn' \<longrightarrow>
                 shape_invariant layer_sizes (snd (feedforward nn' a))
               \<and> shape_invariant layer_sizes (snd (backpropagation nn' x y))
               \<and> shape_invariant layer_sizes (snd (gradient_descent nn' mini_batch eta mu))
               \<and> shape_invariant layer_sizes
                   (self (snd (train nn' data epochs mini_batch_size lr decay gs))))"
proof -
  from assms have pos: "list_all (\<lambda>n. 0 < n) layer_sizes"
    by (simp add: valid_layer_sizes_def)
  from NeuralNetwork_init_establishes [OF pos, of g] obtain nn g' where
    init: "NeuralNetwork_init g layer_sizes = Inr (nn, g')"
    and inv: "shape_invariant layer_sizes nn"
    and zw: "list_all all_zero (velocity_w nn)" and zb: "list_all all_zero (velocity_b nn)"
    by blast
  note len = shape_invariant_lengths [OF inv]
  have layer: "shape (weights nn ! l) = (nat (layer_sizes ! Suc l), nat (layer_sizes ! l))
      \<and> shape (biases nn ! l) = (nat (layer_sizes ! Suc l), 1)
      \<and> shape (velocity_w nn ! l) = shape (weights nn ! l)
      \<and> shape (velocity_b nn ! l) = shape (biases nn ! l)
      \<and> all_zero (velocity_w nn ! l) \<and> all_zero (velocity_b nn ! l)"
    if "l < length layer_sizes - 1" for l
  proof -
    from that len have "l < length (velocity_w nn)" "l < length (velocity_b nn)" by simp_all
    with zw zb have "all_zero (velocity_w nn ! l)" "all_zero (velocity_b nn ! l)"
      by (simp_all add: list_all_length)
    with shape_invariant_nth [OF inv that] show ?thesis by blast
  qed
  have keep: "shape_invariant layer_sizes (snd (feedforward nn' a))
      \<and> shape_invariant layer_sizes (snd (backpropagation nn' x y))
      \<and> shape_invariant layer_sizes (snd (gradient_descent nn' mini_batch eta mu))
      \<and> shape_invariant layer_sizes
          (self (snd (train nn' data epochs mini_batch_size lr decay gs)))"
    if "shape_invariant layer_sizes nn'" for nn'
    using that
    by (simp add: feedforward_self backpropagation_def gradient_descent_def train_def
          train_loop_self)
  from init inv len layer keep show ?thesis by blast
qed

theorem constructor_shape_invariant_witness:
  "valid_layer_sizes [2, 2, 1]
   \<and> (\<exists>nn g'. NeuralNetwork_init (\<lambda>k. real k) [2, 2, 1] = Inr (nn, g')
        \<and> shape_invariant [2, 2, 1] nn
        \<and> length (weights nn) = length [2, 2, 1 :: int] - 1
        \<and> length (biases nn) = length [2, 2, 1 :: int] - 1
        \<and> length (velocity_w nn) = length [2, 2, 1 :: int] - 1
        \<and> length (velocity_b nn) = length [2, 2, 1 :: int] - 1
        \<and> (\<forall>l<length [2, 2, 1 :: int] - 1.
              shape (weights nn ! l) = (nat ([2, 2, 1] ! Suc l), nat ([2, 2, 1] ! l))
            \<and> shape (biases nn ! l) = (nat ([2, 2, 1] ! Suc l), 1)
            \<and> shape (velocity_w nn ! l) = shape (weights nn ! l)
            \<and> shape (velocity_b nn ! l) = shape (biases nn ! l)
            \<and> all_zero (velocity_w nn ! l) \<and> all_zero (velocity_b nn ! l))
        \<and> (\<forall>nn'. shape_invariant [2, 2, 1] nn' \<longrightarrow>
              shape_invariant [2, 2, 1] (snd (feedforward nn' (np_array [[0], [1]])))
            \<and> shape_invariant [2, 2, 1]
                (snd (backpropagation nn' (np_array [[0], [1]]) (np_array [[1]])))
            \<and> shape_invariant [2, 2, 1] (snd (gradient_descent nn' xor_training_data 0.1 0.9))
            \<and> shape_invariant [2, 2, 1]
                (self (snd (train nn' xor_training_data 20000 4 0.1 0.9999 (\<lambda>k. k))))))"
proof -
  have h: "valid_layer_sizes [2, 2, 1]" by (simp add: valid_layer_sizes_def)
  show ?thesis
    by (rule conjI [OF h constructor_shape_invariant [OF h]])
qed

end
